theory Spec2Isabelle
  imports Main "HOL-Library.Sublist"
begin

section \<open>Plugins\<close>

text \<open>
  \<^verbatim>\<open>class PluginStatus(Enum)\<close>: the two running states of a plugin.
\<close>

datatype PluginStatus = Running | Stopped

text \<open>
  A \<^verbatim>\<open>WechatyPlugin\<close> object. \<open>ident\<close> stands for the identity of the Python object (two
  instances of one class are two objects), \<open>class_name\<close> for \<^verbatim>\<open>self.__class__.__name__\<close> and
  \<open>options_name\<close> for \<^verbatim>\<open>self.options.name\<close> (\<^verbatim>\<open>Optional[str]\<close>, \<^verbatim>\<open>None\<close> by default).
\<close>

record WechatyPlugin =
  ident :: nat
  class_name :: string
  options_name :: "string option"

text \<open>
  The property \<^verbatim>\<open>WechatyPlugin.name\<close>. \<^verbatim>\<open>not self.options.name\<close> holds for \<^verbatim>\<open>None\<close> and for the
  empty string; in that case the class name is stored in the options before it is returned.
  The function returns the name together with the plugin after that assignment.
\<close>

definition name :: "WechatyPlugin \<Rightarrow> string \<times> WechatyPlugin" where
  "name self =
     (if options_name self = None \<or> options_name self = Some []
      then (class_name self, self\<lparr>options_name := Some (class_name self)\<rparr>)
      else (the (options_name self), self))"

section \<open>The plugin manager\<close>

text \<open>
  The exceptions the manager can leave with: \<^verbatim>\<open>WechatyPluginError\<close> is raised explicitly,
  \<^verbatim>\<open>AssertionError\<close> comes from the \<^verbatim>\<open>assert isinstance(...)\<close> statements, \<^verbatim>\<open>IndexError\<close> from
  \<^verbatim>\<open>args[i]\<close> on a tuple that is too short and \<^verbatim>\<open>KeyError\<close> from a dictionary lookup or
  \<^verbatim>\<open>pop\<close> of a missing key.
\<close>

datatype error = WechatyPluginError | AssertionError | IndexError | KeyError

text \<open>
  \<^verbatim>\<open>self._plugins\<close> is an \<^verbatim>\<open>OrderedDict\<close>: an association list in insertion order.
  \<^verbatim>\<open>self._plugin_status\<close> is a dictionary whose order is never observed: a map. The web
  application, the endpoint and the dependency trees take no part in registration or
  dispatch and are left out, and so are the calls to the logger.
\<close>

record WechatyPluginManager =
  plugins :: "(string \<times> WechatyPlugin) list"
  plugin_statuses :: "string \<rightharpoonup> PluginStatus"

text \<open>\<^verbatim>\<open>key in d\<close>, \<^verbatim>\<open>d[key] = value\<close> and \<^verbatim>\<open>d.pop(key)\<close> of an \<^verbatim>\<open>OrderedDict\<close>: assigning to a
  key that is present keeps its position, a new key goes to the end.\<close>

definition od_contains :: "('k \<times> 'v) list \<Rightarrow> 'k \<Rightarrow> bool" where
  "od_contains d k = (map_of d k \<noteq> None)"

fun od_setitem :: "('k \<times> 'v) list \<Rightarrow> 'k \<Rightarrow> 'v \<Rightarrow> ('k \<times> 'v) list" where
  "od_setitem [] k v = [(k, v)]"
| "od_setitem ((k', v') # d) k v =
     (if k' = k then (k, v) # d else (k', v') # od_setitem d k v)"

fun od_pop :: "('k \<times> 'v) list \<Rightarrow> 'k \<Rightarrow> ('k \<times> 'v) list" where
  "od_pop [] k = []"
| "od_pop ((k', v') # d) k = (if k' = k then od_pop d k else (k', v') # od_pop d k)"

text \<open>\<^verbatim>\<open>WechatyPluginManager.__init__\<close>: both dictionaries start empty.\<close>

definition init :: WechatyPluginManager where
  "init = \<lparr>plugins = [], plugin_statuses = Map.empty\<rparr>"

text \<open>Both loaders log and return \<^verbatim>\<open>None\<close>.\<close>

definition load_plugin_from_local_file :: "string \<Rightarrow> WechatyPlugin option" where
  "load_plugin_from_local_file plugin_path = None"

definition load_plugin_from_github_url :: "string \<Rightarrow> WechatyPlugin option" where
  "load_plugin_from_github_url github_url = None"

text \<open>
  The last two statements of \<^verbatim>\<open>add_plugin\<close>: the instance is stored under its name and its
  status is set to \<^verbatim>\<open>Running\<close>. Each read of \<^verbatim>\<open>plugin_instance.name\<close> goes through the
  property.
\<close>

definition install :: "WechatyPluginManager \<Rightarrow> WechatyPlugin \<Rightarrow> WechatyPluginManager" where
  "install self plugin_instance =
     (let (n1, inst1) = name plugin_instance;
          self1 = self\<lparr>plugins := od_setitem (plugins self) n1 inst1\<rparr>;
          (n2, inst2) = name inst1
      in self1\<lparr>plugin_statuses := (plugin_statuses self1)(n2 \<mapsto> Running)\<rparr>)"

text \<open>
  \<^verbatim>\<open>add_plugin\<close>. The argument is a string (\<open>Inl\<close>) or a plugin instance (\<open>Inr\<close>). The compiled
  URL pattern is the parameter \<open>regex_match\<close>: it only selects the loader. Every operation
  returns its outcome (\<open>Inl\<close> the exception raised) together with the manager as the call
  leaves it.
\<close>

definition add_plugin ::
  "(string \<Rightarrow> bool) \<Rightarrow> WechatyPluginManager \<Rightarrow> string + WechatyPlugin
     \<Rightarrow> (error + unit) \<times> WechatyPluginManager" where
  "add_plugin regex_match self plugin =
     (case plugin of
        Inl s \<Rightarrow>
          (let plugin_instance =
                 (if \<not> regex_match s then load_plugin_from_local_file s
                  else load_plugin_from_github_url s)
           in case plugin_instance of
                None \<Rightarrow> (Inl WechatyPluginError, self)
              | Some inst \<Rightarrow> (Inr (), install self inst))
      | Inr p \<Rightarrow>
          (let (n, p') = name p
           in if od_contains (plugins self) n then (Inr (), self)
              else (Inr (), install self p')))"

definition remove_plugin ::
  "WechatyPluginManager \<Rightarrow> string \<Rightarrow> (error + unit) \<times> WechatyPluginManager" where
  "remove_plugin self n =
     (if \<not> od_contains (plugins self) n then (Inl WechatyPluginError, self)
      else
        (let self1 = self\<lparr>plugins := od_pop (plugins self) n\<rparr>
         in case plugin_statuses self1 n of
              None \<Rightarrow> (Inl KeyError, self1)
            | Some s \<Rightarrow> (Inr (), self1\<lparr>plugin_statuses := (plugin_statuses self1)(n := None)\<rparr>)))"

text \<open>\<^verbatim>\<open>_check_plugins\<close> raises only when the name is in neither dictionary.\<close>

definition check_plugins :: "WechatyPluginManager \<Rightarrow> string \<Rightarrow> error + unit" where
  "check_plugins self n =
     (if \<not> od_contains (plugins self) n \<and> plugin_statuses self n = None
      then Inl WechatyPluginError else Inr ())"

text \<open>\<^verbatim>\<open>stop_plugin\<close> reads \<^verbatim>\<open>self._plugin_status[name]\<close> for its warning before it writes.\<close>

definition stop_plugin ::
  "WechatyPluginManager \<Rightarrow> string \<Rightarrow> (error + unit) \<times> WechatyPluginManager" where
  "stop_plugin self n =
     (case check_plugins self n of
        Inl e \<Rightarrow> (Inl e, self)
      | Inr u \<Rightarrow>
          (case plugin_statuses self n of
             None \<Rightarrow> (Inl KeyError, self)
           | Some s \<Rightarrow> (Inr (), self\<lparr>plugin_statuses := (plugin_statuses self)(n \<mapsto> Stopped)\<rparr>)))"

definition start_plugin ::
  "WechatyPluginManager \<Rightarrow> string \<Rightarrow> (error + unit) \<times> WechatyPluginManager" where
  "start_plugin self n =
     (case check_plugins self n of
        Inl e \<Rightarrow> (Inl e, self)
      | Inr u \<Rightarrow> (Inr (), self\<lparr>plugin_statuses := (plugin_statuses self)(n \<mapsto> Running)\<rparr>))"

definition plugin_status ::
  "WechatyPluginManager \<Rightarrow> string \<Rightarrow> (error + PluginStatus) \<times> WechatyPluginManager" where
  "plugin_status self n =
     (case check_plugins self n of
        Inl e \<Rightarrow> (Inl e, self)
      | Inr u \<Rightarrow>
          (case plugin_statuses self n of
             None \<Rightarrow> (Inl KeyError, self)
           | Some s \<Rightarrow> (Inr s, self)))"

section \<open>Event dispatch\<close>

text \<open>
  The values a caller can pass to \<^verbatim>\<open>emit_events\<close>, as far as the \<^verbatim>\<open>isinstance\<close> checks tell them
  apart: instances of the five user classes, lists, strings, datetimes, \<^verbatim>\<open>None\<close>, and any
  other object (an event payload, a number, ...). The number names the object.
\<close>

datatype pyval =
    Message nat
  | Friendship nat
  | Contact nat
  | RoomInvitation nat
  | Room nat
  | PyList "pyval list"
  | PyStr string
  | PyDatetime nat
  | PyNone
  | PyObject nat

fun isinstance_Message :: "pyval \<Rightarrow> bool" where
  "isinstance_Message (Message i) = True"
| "isinstance_Message v = False"

fun isinstance_Friendship :: "pyval \<Rightarrow> bool" where
  "isinstance_Friendship (Friendship i) = True"
| "isinstance_Friendship v = False"

fun isinstance_Contact :: "pyval \<Rightarrow> bool" where
  "isinstance_Contact (Contact i) = True"
| "isinstance_Contact v = False"

fun isinstance_RoomInvitation :: "pyval \<Rightarrow> bool" where
  "isinstance_RoomInvitation (RoomInvitation i) = True"
| "isinstance_RoomInvitation v = False"

fun isinstance_Room :: "pyval \<Rightarrow> bool" where
  "isinstance_Room (Room i) = True"
| "isinstance_Room v = False"

fun isinstance_list :: "pyval \<Rightarrow> bool" where
  "isinstance_list (PyList xs) = True"
| "isinstance_list v = False"

fun isinstance_str :: "pyval \<Rightarrow> bool" where
  "isinstance_str (PyStr s) = True"
| "isinstance_str v = False"

fun isinstance_datetime :: "pyval \<Rightarrow> bool" where
  "isinstance_datetime (PyDatetime t) = True"
| "isinstance_datetime v = False"

text \<open>
  The handler methods of \<^verbatim>\<open>WechatyPlugin\<close> with their arguments. The bodies of the handlers
  in the base class are empty, so a call to one is observed only as the fact that it was
  made, on which plugin, with which arguments, and after which other calls.
\<close>

datatype handler_call =
    on_error pyval
  | on_heartbeat pyval
  | on_friendship pyval
  | on_login pyval
  | on_logout pyval
  | on_message pyval
  | on_ready pyval
  | on_room_invite pyval
  | on_room_join pyval pyval pyval pyval
  | on_room_leave pyval pyval pyval pyval
  | on_room_topic pyval pyval pyval pyval pyval
  | on_scan pyval pyval pyval

type_synonym invocation = "WechatyPlugin \<times> handler_call"

text \<open>
  The loop every branch of \<^verbatim>\<open>emit_events\<close> ends with:
  \<^verbatim>\<open>for name, plugin in self._plugins.items():
      if self.plugin_status(name) == PluginStatus.Running:
          await plugin.on_...(...)\<close>
  It returns the handler calls made, in order, and the exception that ended the loop, if any
  (\<^verbatim>\<open>plugin_status\<close> can raise).
\<close>

fun dispatch ::
  "WechatyPluginManager \<Rightarrow> handler_call \<Rightarrow> (string \<times> WechatyPlugin) list
     \<Rightarrow> invocation list \<times> error option" where
  "dispatch self c [] = ([], None)"
| "dispatch self c ((n, plugin) # rest) =
     (case fst (plugin_status self n) of
        Inl e \<Rightarrow> ([], Some e)
      | Inr s \<Rightarrow>
          (if s = Running
           then (let (calls, r) = dispatch self c rest in ((plugin, c) # calls, r))
           else dispatch self c rest))"

text \<open>
  The argument checks of each branch of \<^verbatim>\<open>emit_events\<close>, in the order of the source: the
  explicit \<^verbatim>\<open>raise WechatyPluginError\<close>, then each \<^verbatim>\<open>args[i]\<close> and its \<^verbatim>\<open>assert\<close>. The result is
  the first exception, or the handler call the loop makes. Keyword arguments are read only by
  the test \<^verbatim>\<open>'msg' not in kwargs\<close>.
\<close>

definition message_args :: "pyval list \<Rightarrow> (string \<times> pyval) list \<Rightarrow> error + handler_call" where
  "message_args args kwargs =
     (if args = [] \<and> \<not> od_contains kwargs ''msg'' then Inl WechatyPluginError
      else case args of
             [] \<Rightarrow> Inl IndexError
           | message # others \<Rightarrow>
               if \<not> isinstance_Message message then Inl AssertionError
               else Inr (on_message message))"

definition friendship_args :: "pyval list \<Rightarrow> error + handler_call" where
  "friendship_args args =
     (if args = [] \<or> length args \<noteq> 1 then Inl WechatyPluginError
      else let friendship = args ! 0
           in if \<not> isinstance_Friendship friendship then Inl AssertionError
              else Inr (on_friendship friendship))"

definition login_args :: "pyval list \<Rightarrow> error + handler_call" where
  "login_args args =
     (if args = [] \<or> length args \<noteq> 1 then Inl WechatyPluginError
      else let contact = args ! 0
           in if \<not> isinstance_Contact contact then Inl AssertionError
              else Inr (on_login contact))"

definition room_invite_args :: "pyval list \<Rightarrow> error + handler_call" where
  "room_invite_args args =
     (if args = [] \<or> length args \<noteq> 1 then Inl WechatyPluginError
      else let room_invitation = args ! 0
           in if \<not> isinstance_RoomInvitation room_invitation then Inl AssertionError
              else Inr (on_room_invite room_invitation))"

definition room_join_args :: "pyval list \<Rightarrow> error + handler_call" where
  "room_join_args args =
     (if args = [] \<or> length args \<noteq> 4 then Inl WechatyPluginError
      else let room = args ! 0; invitees = args ! 1; inviter = args ! 2; date = args ! 3
           in if \<not> isinstance_Room room then Inl AssertionError
              else if \<not> isinstance_list invitees then Inl AssertionError
              else if \<not> isinstance_Contact inviter then Inl AssertionError
              else if \<not> isinstance_datetime date then Inl AssertionError
              else Inr (on_room_join room invitees inviter date))"

definition room_leave_args :: "pyval list \<Rightarrow> error + handler_call" where
  "room_leave_args args =
     (if args = [] \<or> length args \<noteq> 4 then Inl WechatyPluginError
      else let room = args ! 0; leavers = args ! 1; remover = args ! 2; date = args ! 3
           in if \<not> isinstance_Room room then Inl AssertionError
              else if \<not> isinstance_list leavers then Inl AssertionError
              else if \<not> isinstance_Contact remover then Inl AssertionError
              else if \<not> isinstance_datetime date then Inl AssertionError
              else Inr (on_room_leave room leavers remover date))"

definition room_topic_args :: "pyval list \<Rightarrow> error + handler_call" where
  "room_topic_args args =
     (if args = [] \<or> length args \<noteq> 5 then Inl WechatyPluginError
      else let room = args ! 0; new_topic = args ! 1; old_topic = args ! 2;
               changer = args ! 3; date = args ! 4
           in if \<not> isinstance_Room room then Inl AssertionError
              else if \<not> isinstance_str new_topic then Inl AssertionError
              else if \<not> isinstance_str old_topic then Inl AssertionError
              else if \<not> isinstance_Contact changer then Inl AssertionError
              else if \<not> isinstance_datetime date then Inl AssertionError
              else Inr (on_room_topic room new_topic old_topic changer date))"

text \<open>
  In the scan branch the guard lets one to three arguments through, and the body then reads
  \<^verbatim>\<open>args[0]\<close>, \<^verbatim>\<open>args[1]\<close> and \<^verbatim>\<open>args[2]\<close>; \<^verbatim>\<open>data\<close> is only cast, not checked.
\<close>

definition scan_args :: "pyval list \<Rightarrow> error + handler_call" where
  "scan_args args =
     (if args = [] \<or> length args < 0 \<or> length args > 3 then Inl WechatyPluginError
      else let qr_code = args ! 0
           in if \<not> isinstance_str qr_code then Inl AssertionError
              else if length args \<le> 1 then Inl IndexError
              else let scan_status = args ! 1
                   in if \<not> isinstance_str scan_status then Inl AssertionError
                      else if length args \<le> 2 then Inl IndexError
                      else let data = args ! 2
                           in Inr (on_scan qr_code scan_status data))"

text \<open>
  \<^verbatim>\<open>emit_events\<close>: an \<^verbatim>\<open>if\<close>/\<^verbatim>\<open>elif\<close> chain over eight event names with no \<^verbatim>\<open>else\<close>; any other
  name falls through and the method returns. The result is the list of handler calls made
  and the exception raised, if any.
\<close>

definition run_branch ::
  "WechatyPluginManager \<Rightarrow> error + handler_call \<Rightarrow> invocation list \<times> error option" where
  "run_branch self checked =
     (case checked of
        Inl e \<Rightarrow> ([], Some e)
      | Inr c \<Rightarrow> dispatch self c (plugins self))"

definition emit_events ::
  "WechatyPluginManager \<Rightarrow> string \<Rightarrow> pyval list \<Rightarrow> (string \<times> pyval) list
     \<Rightarrow> invocation list \<times> error option" where
  "emit_events self event_name args kwargs =
     (if event_name = ''message'' then run_branch self (message_args args kwargs)
      else if event_name = ''friendship'' then run_branch self (friendship_args args)
      else if event_name = ''login'' then run_branch self (login_args args)
      else if event_name = ''room-invite'' then run_branch self (room_invite_args args)
      else if event_name = ''room-join'' then run_branch self (room_join_args args)
      else if event_name = ''room-leave'' then run_branch self (room_leave_args args)
      else if event_name = ''room-topic'' then run_branch self (room_topic_args args)
      else if event_name = ''scan'' then run_branch self (scan_args args)
      else ([], None))"

section \<open>Registry states\<close>

text \<open>
  The keys of the two dictionaries, and the two properties of a manager built by its
  constructor and its methods: an \<^verbatim>\<open>OrderedDict\<close> holds each key once, and the dictionaries
  have the same keys.
\<close>

definition plugin_keys :: "WechatyPluginManager \<Rightarrow> string set" where
  "plugin_keys self = fst ` set (plugins self)"

definition status_keys :: "WechatyPluginManager \<Rightarrow> string set" where
  "status_keys self = dom (plugin_statuses self)"

definition lockstep :: "WechatyPluginManager \<Rightarrow> bool" where
  "lockstep self = (distinct (map fst (plugins self)) \<and> plugin_keys self = status_keys self)"

text \<open>A caller's use of the registry: a sequence of calls, each on the manager the previous
  call left, whether or not that call raised.\<close>

datatype registry_op =
    Add "string + WechatyPlugin"
  | Remove string
  | Start string
  | Stop string
  | Status string

fun apply_op ::
  "(string \<Rightarrow> bool) \<Rightarrow> WechatyPluginManager \<Rightarrow> registry_op \<Rightarrow> WechatyPluginManager" where
  "apply_op rm self (Add p) = snd (add_plugin rm self p)"
| "apply_op rm self (Remove n) = snd (remove_plugin self n)"
| "apply_op rm self (Start n) = snd (start_plugin self n)"
| "apply_op rm self (Stop n) = snd (stop_plugin self n)"
| "apply_op rm self (Status n) = snd (plugin_status self n)"

definition run_ops ::
  "(string \<Rightarrow> bool) \<Rightarrow> WechatyPluginManager \<Rightarrow> registry_op list \<Rightarrow> WechatyPluginManager" where
  "run_ops rm self ops = foldl (apply_op rm) self ops"

text \<open>The plugins an event reaches: those whose status is \<^verbatim>\<open>Running\<close>, in the order of
  \<^verbatim>\<open>self._plugins\<close>.\<close>

definition running_plugins :: "WechatyPluginManager \<Rightarrow> WechatyPlugin list" where
  "running_plugins self =
     map snd (filter (\<lambda>(n, p). plugin_statuses self n = Some Running) (plugins self))"

text \<open>The event names \<^verbatim>\<open>emit_events\<close> has a branch for.\<close>

definition handled_events :: "string list" where
  "handled_events =
     [''message'', ''friendship'', ''login'', ''room-invite'', ''room-join'', ''room-leave'',
      ''room-topic'', ''scan'']"

section \<open>Mention text\<close>

text \<open>
  Modelled from the spec: the mention extractor \<^verbatim>\<open>Message.mention_text\<close>. Its source file is
  not among the sources; \<^verbatim>\<open>tests/user_message_test.py\<close> calls it and fixes six results.
  The definitions below follow section 4.3 of the specification.
\<close>

record member =
  display_name :: string
  room_alias :: "string option"

type_synonym member_directory = "string \<rightharpoonup> member"

text \<open>
  Modelled from the spec: the token of a mentioned id. A member with a room alias is
  mentioned by the alias only, any other member by the display name; an id the directory
  does not know has no token. The mention marker \<open>@\<close> is put in front by the matching pass.
\<close>

definition mention_name :: "member_directory \<Rightarrow> string \<Rightarrow> string option" where
  "mention_name dir i =
     (case dir i of
        None \<Rightarrow> None
      | Some m \<Rightarrow> (case room_alias m of Some a \<Rightarrow> Some a | None \<Rightarrow> Some (display_name m)))"

definition mention_names :: "member_directory \<Rightarrow> string list \<Rightarrow> string list" where
  "mention_names dir ids = List.map_filter (mention_name dir) ids"

definition whitespace :: "char \<Rightarrow> bool" where
  "whitespace c = (c = CHR '' '' \<or> c = CHR 0x09 \<or> c = CHR 0x0A \<or> c = CHR 0x0D)"

text \<open>Modelled from the spec: the blank a removed token leaves behind goes with it.\<close>

definition drop_separator :: "string \<Rightarrow> string" where
  "drop_separator s = (case s of [] \<Rightarrow> [] | c # cs \<Rightarrow> if whitespace c then cs else c # cs)"

text \<open>Modelled from the spec: of the names that match at a position, the longest wins.\<close>

fun longest_match :: "string list \<Rightarrow> string \<Rightarrow> string option" where
  "longest_match [] s = None"
| "longest_match (t # ts) s =
     (case longest_match ts s of
        None \<Rightarrow> (if prefix t s then Some t else None)
      | Some u \<Rightarrow> (if prefix t s \<and> length u < length t then Some t else Some u))"

text \<open>
  Modelled from the spec: the single matching pass over the text. At an \<open>@\<close> followed by one
  of the names the token and its separator are dropped; every other character is kept.
\<close>

function remove_mentions :: "string list \<Rightarrow> string \<Rightarrow> string" where
  "remove_mentions names [] = []"
| "remove_mentions names (c # cs) =
     (if c = CHR ''@'' then
        (case longest_match names cs of
           Some t \<Rightarrow> remove_mentions names (drop_separator (drop (length t) cs))
         | None \<Rightarrow> c # remove_mentions names cs)
      else c # remove_mentions names cs)"
  by pat_completeness auto
termination
proof (relation "measure (\<lambda>(names, s). length s)")
  have shorter: "length (drop_separator s) \<le> length s" for s
    by (simp add: drop_separator_def split: list.split)
  fix names :: "string list" and c :: char and cs t :: string
  have "length (drop_separator (drop (length t) cs)) \<le> length (drop (length t) cs)"
    by (rule shorter)
  then show "((names, drop_separator (drop (length t) cs)), names, c # cs)
      \<in> measure (\<lambda>(names, s). length s)"
    by simp
qed simp_all

definition strip_ws :: "string \<Rightarrow> string" where
  "strip_ws s = rev (dropWhile whitespace (rev (dropWhile whitespace s)))"

text \<open>
  Modelled from the spec: the extractor itself, \<^verbatim>\<open>extract(text, member_directory, mentioned_ids)\<close>
  in the specification, with the fast path for an empty list of mentioned ids.
\<close>

definition mention_text :: "string \<Rightarrow> member_directory \<Rightarrow> string list \<Rightarrow> string" where
  "mention_text text dir mentioned_ids =
     (if mentioned_ids = [] then text
      else strip_ws (remove_mentions (mention_names dir mentioned_ids) text))"

text \<open>The room members set up by the fixture of \<^verbatim>\<open>tests/user_message_test.py\<close>.\<close>

definition test_directory :: member_directory where
  "test_directory =
     map_of
       [(''wechaty_user'', \<lparr>display_name = ''Wechaty User'', room_alias = None\<rparr>),
        (''fake_user'', \<lparr>display_name = ''Fake User'', room_alias = Some ''Fake Alias''\<rparr>),
        (''test_user'', \<lparr>display_name = ''Test User'', room_alias = None\<rparr>)]"

section \<open>Sample data\<close>

text \<open>Two instances of one plugin class without a configured name, a plugin with a
  configured name, and the manager after the first and the last of them were added.\<close>

definition ding :: WechatyPlugin where
  "ding = \<lparr>ident = 1, class_name = ''DingDongPlugin'', options_name = None\<rparr>"

definition ding_again :: WechatyPlugin where
  "ding_again = \<lparr>ident = 2, class_name = ''DingDongPlugin'', options_name = None\<rparr>"

definition daily :: WechatyPlugin where
  "daily = \<lparr>ident = 3, class_name = ''DailyPlugin'', options_name = Some ''daily''\<rparr>"

definition sample_manager :: WechatyPluginManager where
  "sample_manager = run_ops (\<lambda>s. False) init [Add (Inr ding), Add (Inr daily)]"

section \<open>Properties of the registry\<close>

subsection \<open>Names, ordered dictionaries and single operations\<close>

lemma name_again: "name (snd (name p)) = (fst (name p), snd (name p))"
  by (auto simp: name_def)

lemma ident_name: "ident (snd (name p)) = ident p"
  by (simp add: name_def)

lemma od_contains_iff: "od_contains d k \<longleftrightarrow> k \<in> fst ` set d"
  by (simp add: od_contains_def map_of_eq_None_iff)

lemma od_setitem_new: "k \<notin> fst ` set d \<Longrightarrow> od_setitem d k v = d @ [(k, v)]"
  by (induction d) auto

lemma keys_od_setitem:
  "map fst (od_setitem d k v) = (if k \<in> set (map fst d) then map fst d else map fst d @ [k])"
  by (induction d) (force simp: image_iff)+

lemma distinct_od_setitem:
  "distinct (map fst d) \<Longrightarrow> distinct (map fst (od_setitem d k v))"
  by (simp add: keys_od_setitem)

lemma keys_od_pop: "map fst (od_pop d k) = removeAll k (map fst d)"
  by (induction d) auto

lemma key_set_od_pop: "fst ` set (od_pop d k) = fst ` set d - {k}"
  using keys_od_pop [of d k] by (metis set_map set_removeAll)

lemma distinct_od_pop: "distinct (map fst d) \<Longrightarrow> distinct (map fst (od_pop d k))"
  by (simp add: keys_od_pop distinct_removeAll)

lemma install_new:
  assumes "fst (name p) \<notin> plugin_keys self"
  shows "install self p =
     self\<lparr>plugins := plugins self @ [(fst (name p), snd (name p))],
          plugin_statuses := (plugin_statuses self)(fst (name p) \<mapsto> Running)\<rparr>"
proof -
  obtain n q where nq: "name p = (n, q)" by (cases "name p")
  have again: "name q = (n, q)"
    using name_again [of p] nq by simp
  have "od_setitem (plugins self) n q = plugins self @ [(n, q)]"
    using assms nq by (simp add: od_setitem_new plugin_keys_def)
  then show ?thesis
    by (simp add: install_def nq again)
qed

lemma install_name_again: "install self (snd (name p)) = install self p"
  by (simp add: install_def name_again split: prod.split)

lemma add_plugin_instance_eq:
  "add_plugin rm self (Inr p) =
     (if fst (name p) \<in> plugin_keys self then (Inr (), self)
      else (Inr (),
            self\<lparr>plugins := plugins self @ [(fst (name p), snd (name p))],
                 plugin_statuses := (plugin_statuses self)(fst (name p) \<mapsto> Running)\<rparr>))"
proof -
  obtain n q where nq: "name p = (n, q)" by (cases "name p")
  have q: "install self q = install self p"
    using install_name_again [of self p] nq by simp
  show ?thesis
  proof (cases "n \<in> plugin_keys self")
    case True
    then show ?thesis
      by (simp add: add_plugin_def nq od_contains_iff plugin_keys_def)
  next
    case False
    then have "add_plugin rm self (Inr p) = (Inr (), install self p)"
      by (simp add: add_plugin_def nq od_contains_iff plugin_keys_def q)
    with False show ?thesis
      using install_new [of p self] nq by simp
  qed
qed

lemma add_plugin_locator: "add_plugin rm self (Inl s) = (Inl WechatyPluginError, self)"
  by (simp add: add_plugin_def load_plugin_from_local_file_def load_plugin_from_github_url_def)

subsection \<open>The two dictionaries stay in lockstep\<close>

lemma lockstep_init: "lockstep init"
  by (simp add: lockstep_def init_def plugin_keys_def status_keys_def)

lemma lockstep_add: "lockstep self \<Longrightarrow> lockstep (snd (add_plugin rm self p))"
proof (cases p)
  case (Inl s)
  then show "lockstep self \<Longrightarrow> ?thesis" by (simp add: add_plugin_locator)
next
  case (Inr q)
  then show "lockstep self \<Longrightarrow> ?thesis"
    by (auto simp: add_plugin_instance_eq lockstep_def plugin_keys_def status_keys_def)
qed

lemma lockstep_remove: "lockstep self \<Longrightarrow> lockstep (snd (remove_plugin self n))"
  by (auto simp: remove_plugin_def lockstep_def plugin_keys_def status_keys_def od_contains_iff
      key_set_od_pop distinct_od_pop Let_def split: option.splits)

lemma check_plugins_registered:
  "n \<in> plugin_keys self \<Longrightarrow> check_plugins self n = Inr ()"
  by (simp add: check_plugins_def od_contains_iff plugin_keys_def)

lemma check_plugins_unregistered:
  "lockstep self \<Longrightarrow> n \<notin> plugin_keys self \<Longrightarrow> check_plugins self n = Inl WechatyPluginError"
  by (auto simp: check_plugins_def od_contains_iff plugin_keys_def lockstep_def status_keys_def)

lemma lockstep_start: "lockstep self \<Longrightarrow> lockstep (snd (start_plugin self n))"
  by (cases "n \<in> plugin_keys self")
     (auto simp: start_plugin_def check_plugins_registered check_plugins_unregistered
      lockstep_def plugin_keys_def status_keys_def)

lemma lockstep_stop: "lockstep self \<Longrightarrow> lockstep (snd (stop_plugin self n))"
  by (cases "n \<in> plugin_keys self")
     (auto simp: stop_plugin_def check_plugins_registered check_plugins_unregistered
      lockstep_def plugin_keys_def status_keys_def split: option.splits)

lemma plugin_status_state: "snd (plugin_status self n) = self"
  by (simp add: plugin_status_def split: sum.splits option.splits)

lemma lockstep_apply_op: "lockstep self \<Longrightarrow> lockstep (apply_op rm self op)"
  by (cases op) (simp_all add: lockstep_add lockstep_remove lockstep_start lockstep_stop
      plugin_status_state)

lemma lockstep_run_ops: "lockstep self \<Longrightarrow> lockstep (run_ops rm self ops)"
  unfolding run_ops_def by (induction ops arbitrary: self) (simp_all add: lockstep_apply_op)

lemma sample_manager_eq:
  "sample_manager =
     \<lparr>plugins = [(''DingDongPlugin'', ding\<lparr>options_name := Some ''DingDongPlugin''\<rparr>),
                 (''daily'', daily)],
      plugin_statuses = [''DingDongPlugin'' \<mapsto> Running, ''daily'' \<mapsto> Running]\<rparr>"
  by (simp add: sample_manager_def run_ops_def add_plugin_instance_eq name_def init_def
      plugin_keys_def ding_def daily_def)

lemma lockstep_sample: "lockstep sample_manager"
  unfolding sample_manager_def by (rule lockstep_run_ops [OF lockstep_init])

lemma plugin_keys_sample: "plugin_keys sample_manager = {''DingDongPlugin'', ''daily''}"
  by (auto simp add: sample_manager_eq plugin_keys_def)

subsection \<open>The dispatch loop\<close>

lemma plugin_status_known:
  "plugin_statuses self n = Some s \<Longrightarrow> plugin_status self n = (Inr s, self)"
  by (simp add: plugin_status_def check_plugins_def)

lemma plugin_status_registered:
  "n \<in> plugin_keys self \<Longrightarrow>
   fst (plugin_status self n) =
     (case plugin_statuses self n of None \<Rightarrow> Inl KeyError | Some s \<Rightarrow> Inr s)"
  by (simp add: plugin_status_def check_plugins_registered split: option.split)

lemma dispatch_known:
  "fst ` set ps \<subseteq> status_keys self \<Longrightarrow>
   dispatch self c ps =
     (map (\<lambda>p. (p, c))
        (map snd (filter (\<lambda>(n, p). plugin_statuses self n = Some Running) ps)), None)"
proof (induction ps)
  case Nil
  then show ?case by simp
next
  case (Cons a ps)
  obtain n p where a: "a = (n, p)" by (cases a)
  from Cons.prems a obtain s where s: "plugin_statuses self n = Some s"
    by (auto simp: status_keys_def)
  from Cons have "dispatch self c ps =
     (map (\<lambda>p. (p, c))
        (map snd (filter (\<lambda>(n, p). plugin_statuses self n = Some Running) ps)), None)"
    by simp
  then show ?case
    by (simp add: a s plugin_status_known)
qed

lemma dispatch_lockstep:
  "lockstep self \<Longrightarrow>
   dispatch self c (plugins self) = (map (\<lambda>p. (p, c)) (running_plugins self), None)"
  by (simp add: dispatch_known lockstep_def plugin_keys_def running_plugins_def)

lemma dispatch_not_plugin_error:
  "fst ` set ps \<subseteq> plugin_keys self \<Longrightarrow> snd (dispatch self c ps) \<noteq> Some WechatyPluginError"
proof (induction ps)
  case Nil
  then show ?case by simp
next
  case (Cons a ps)
  obtain n p where a: "a = (n, p)" by (cases a)
  from Cons.prems a have n: "n \<in> plugin_keys self" by simp
  from Cons have "snd (dispatch self c ps) \<noteq> Some WechatyPluginError" by simp
  then show ?case
    by (auto simp: a plugin_status_registered [OF n] split: option.split prod.split)
qed

lemma dispatch_calls_registered:
  "(q, c') \<in> set (fst (dispatch self c ps)) \<Longrightarrow> q \<in> snd ` set ps"
proof (induction ps)
  case Nil
  then show ?case by simp
next
  case (Cons a ps)
  obtain n p where a: "a = (n, p)" by (cases a)
  show ?case
  proof (cases "fst (plugin_status self n)")
    case (Inl e)
    with Cons.prems a show ?thesis by simp
  next
    case (Inr s)
    with Cons.prems a have "q = p \<or> (q, c') \<in> set (fst (dispatch self c ps))"
      by (auto split: if_splits prod.splits)
    with Cons.IH a show ?thesis by auto
  qed
qed

lemma run_branch_calls_registered:
  "(q, c') \<in> set (fst (run_branch self checked)) \<Longrightarrow> q \<in> snd ` set (plugins self)"
  by (cases checked) (auto simp: run_branch_def dest: dispatch_calls_registered)

lemma emit_calls_registered:
  "(q, c') \<in> set (fst (emit_events self event_name args kwargs)) \<Longrightarrow>
   q \<in> snd ` set (plugins self)"
  by (auto simp: emit_events_def split: if_splits dest: run_branch_calls_registered)

text \<open>On a manager in lockstep, whether a handled event returns depends on the
  arguments alone, and the calls made are the running plugins in order.\<close>

lemma run_branch_returns:
  assumes "lockstep self" and "run_branch self checked = (calls, None)"
  shows "\<exists>c. checked = Inr c \<and> calls = map (\<lambda>p. (p, c)) (running_plugins self)"
  using assms by (cases checked) (auto simp: run_branch_def dispatch_lockstep)

lemma run_branch_lockstep:
  "lockstep self \<Longrightarrow>
   run_branch self (Inr c) = (map (\<lambda>p. (p, c)) (running_plugins self), None)"
  by (simp add: run_branch_def dispatch_lockstep)

lemma run_branch_not_plugin_error:
  "snd (run_branch self (Inr c)) \<noteq> Some WechatyPluginError"
  using dispatch_not_plugin_error [of "plugins self" self c]
  by (simp add: run_branch_def plugin_keys_def)

lemma emit_returns:
  assumes "lockstep self" and "lockstep self'"
    and "event_name \<in> set handled_events"
    and "emit_events self event_name args kwargs = (calls, None)"
  shows "\<exists>c. calls = map (\<lambda>p. (p, c)) (running_plugins self) \<and>
             emit_events self' event_name args kwargs =
               (map (\<lambda>p. (p, c)) (running_plugins self'), None)"
proof -
  have step: "\<exists>c. calls = map (\<lambda>p. (p, c)) (running_plugins self) \<and>
      run_branch self' checked = (map (\<lambda>p. (p, c)) (running_plugins self'), None)"
    if "run_branch self checked = (calls, None)" for checked
    using run_branch_returns [OF assms(1) that] run_branch_lockstep [OF assms(2)] by auto
  from assms(3) have "event_name = ''message'' \<or> event_name = ''friendship''
    \<or> event_name = ''login'' \<or> event_name = ''room-invite'' \<or> event_name = ''room-join''
    \<or> event_name = ''room-leave'' \<or> event_name = ''room-topic'' \<or> event_name = ''scan''"
    by (simp add: handled_events_def)
  then show ?thesis
    using assms(4) step by (elim disjE) (simp_all add: emit_events_def)
qed

text \<open>Arguments of the expected classes pass the checks of every branch.\<close>

lemma emit_events_accepts:
  assumes "lockstep self"
  shows "emit_events self ''message'' [Message i] kwargs =
           (map (\<lambda>p. (p, on_message (Message i))) (running_plugins self), None)"
    and "emit_events self ''friendship'' [Friendship i] kwargs =
           (map (\<lambda>p. (p, on_friendship (Friendship i))) (running_plugins self), None)"
    and "emit_events self ''login'' [Contact i] kwargs =
           (map (\<lambda>p. (p, on_login (Contact i))) (running_plugins self), None)"
    and "emit_events self ''room-invite'' [RoomInvitation i] kwargs =
           (map (\<lambda>p. (p, on_room_invite (RoomInvitation i))) (running_plugins self), None)"
    and "emit_events self ''room-join'' [Room r, PyList xs, Contact i, PyDatetime d] kwargs =
           (map (\<lambda>p. (p, on_room_join (Room r) (PyList xs) (Contact i) (PyDatetime d)))
              (running_plugins self), None)"
    and "emit_events self ''room-leave'' [Room r, PyList xs, Contact i, PyDatetime d] kwargs =
           (map (\<lambda>p. (p, on_room_leave (Room r) (PyList xs) (Contact i) (PyDatetime d)))
              (running_plugins self), None)"
    and "emit_events self ''room-topic'' [Room r, PyStr new, PyStr old, Contact i, PyDatetime d]
           kwargs =
           (map (\<lambda>p. (p, on_room_topic (Room r) (PyStr new) (PyStr old) (Contact i) (PyDatetime d)))
              (running_plugins self), None)"
    and "emit_events self ''scan'' [PyStr q, PyStr s, data] kwargs =
           (map (\<lambda>p. (p, on_scan (PyStr q) (PyStr s) data)) (running_plugins self), None)"
  using assms
  by (simp_all add: emit_events_def run_branch_lockstep message_args_def friendship_args_def
      login_args_def room_invite_args_def room_join_args_def room_leave_args_def
      room_topic_args_def scan_args_def)

lemma stop_registered:
  "lockstep self \<Longrightarrow> n \<in> plugin_keys self \<Longrightarrow>
   stop_plugin self n =
     (Inr (), self\<lparr>plugin_statuses := (plugin_statuses self)(n \<mapsto> Stopped)\<rparr>)"
  by (auto simp: stop_plugin_def check_plugins_registered lockstep_def status_keys_def
      split: option.split)

lemma start_registered:
  "n \<in> plugin_keys self \<Longrightarrow>
   start_plugin self n =
     (Inr (), self\<lparr>plugin_statuses := (plugin_statuses self)(n \<mapsto> Running)\<rparr>)"
  by (simp add: start_plugin_def check_plugins_registered)

lemma running_after_stop:
  assumes "lockstep self" and "n \<in> plugin_keys self"
  shows "running_plugins (snd (stop_plugin self n)) =
     map snd (filter (\<lambda>(k, p). k \<noteq> n \<and> plugin_statuses self k = Some Running) (plugins self))"
proof -
  have "(\<lambda>(k, p). ((plugin_statuses self)(n \<mapsto> Stopped)) k = Some Running)
      = (\<lambda>(k, p::WechatyPlugin). k \<noteq> n \<and> plugin_statuses self k = Some Running)"
    by (auto simp: fun_eq_iff)
  then show ?thesis
    by (simp add: stop_registered [OF assms] running_plugins_def)
qed

lemma running_after_restart:
  assumes "lockstep self" and "n \<in> plugin_keys self"
  shows "running_plugins (snd (start_plugin (snd (stop_plugin self n)) n)) =
     map snd (filter (\<lambda>(k, p). k = n \<or> plugin_statuses self k = Some Running) (plugins self))"
proof -
  have "(\<lambda>(k, p). ((plugin_statuses self)(n \<mapsto> Running)) k = Some Running)
      = (\<lambda>(k, p::WechatyPlugin). k = n \<or> plugin_statuses self k = Some Running)"
    by (auto simp: fun_eq_iff)
  moreover have "n \<in> plugin_keys (self\<lparr>plugin_statuses := (plugin_statuses self)(n \<mapsto> Stopped)\<rparr>)"
    using assms(2) by (simp add: plugin_keys_def)
  ultimately show ?thesis
    by (simp add: stop_registered [OF assms] start_registered running_plugins_def)
qed

lemma emit_message_sample:
  "emit_events sample_manager ''message'' [Message 7] [] =
     ([(ding\<lparr>options_name := Some ''DingDongPlugin''\<rparr>, on_message (Message 7)),
       (daily, on_message (Message 7))], None)"
  by (simp add: emit_events_def run_branch_def message_args_def sample_manager_eq
      plugin_status_known)

lemma scan_args_plugin_error:
  "scan_args args = Inl WechatyPluginError \<longleftrightarrow> length args = 0 \<or> 3 < length args"
  by (auto simp: scan_args_def Let_def)

subsection \<open>Mention text\<close>

text \<open>The six results fixed by \<^verbatim>\<open>tests/user_message_test.py\<close>; the fifth is part of the
  theorem on aliased members below.\<close>

lemma mention_text_tests:
  "mention_text ''foo bar asd'' Map.empty [] = ''foo bar asd''"
  "mention_text ''beep'' test_directory [] = ''beep''"
  "mention_text ''@Wechaty User @Test User test message asd'' test_directory
     [''wechaty_user'', ''test_user''] = ''test message asd''"
  "mention_text ''123123 @Wechaty User @Test User @Fake Alias kkasd'' test_directory
     [''wechaty_user'', ''test_user'', ''fake_user''] = ''123123 kkasd''"
  "mention_text ''@Wechaty User @Test User @Fake Alias beep!!'' test_directory [] =
     ''@Wechaty User @Test User @Fake Alias beep!!''"
  by code_simp+

lemma longest_match_without:
  "\<not> prefix nm s \<Longrightarrow> longest_match (filter (\<lambda>t. t \<noteq> nm) names) s = longest_match names s"
  by (induction names) (auto split: option.splits)

lemma suffix_drop_separator: "suffix (drop_separator s) s"
  by (auto simp: drop_separator_def suffix_def split: list.split intro: exI [of _ "[_]"])

lemma absent_at_suffix:
  assumes "\<not> sublist t s" and "suffix r s"
  shows "\<not> prefix t r"
proof
  assume "prefix t r"
  then obtain ss where "r = t @ ss" by (auto simp: prefix_def)
  moreover from assms(2) obtain ps where "s = ps @ r" by (auto simp: suffix_def)
  ultimately have "s = ps @ t @ ss" by simp
  with assms(1) show False by (auto simp: sublist_def)
qed

lemma remove_mentions_without:
  "\<not> sublist (CHR ''@'' # nm) s \<Longrightarrow>
   remove_mentions (filter (\<lambda>t. t \<noteq> nm) names) s = remove_mentions names s"
proof (induction names s rule: remove_mentions.induct)
  case (1 names)
  then show ?case by simp
next
  case (2 names c cs)
  have tail: "\<not> sublist (CHR ''@'' # nm) cs"
    using "2.prems" by (auto simp: sublist_Cons_right)
  show ?case
  proof (cases "c = CHR ''@''")
    case False
    with 2 tail show ?thesis by simp
  next
    case True
    have "\<not> prefix (CHR ''@'' # nm) (c # cs)"
      using absent_at_suffix [OF "2.prems" suffix_order.refl] .
    with True have np: "\<not> prefix nm cs" by simp
    note lm = longest_match_without [OF np, of names]
    show ?thesis
    proof (cases "longest_match names cs")
      case None
      with 2 tail True lm show ?thesis by simp
    next
      case (Some t)
      have "suffix (drop_separator (drop (length t) cs)) cs"
        using suffix_drop_separator suffix_drop suffix_order.trans by blast
      then have "suffix (drop_separator (drop (length t) cs)) (c # cs)"
        by (simp add: suffix_Cons)
      with "2.prems" have "\<not> sublist (CHR ''@'' # nm) (drop_separator (drop (length t) cs))"
        by (meson sublist_order.order.trans suffix_imp_sublist)
      with "2.IH"(2) [OF True Some] True Some lm show ?thesis by simp
    qed
  qed
qed

lemma mention_names_without:
  "mention_name dir i = Some a \<Longrightarrow>
   filter (\<lambda>t. t \<noteq> a) (mention_names dir (removeAll i ids)) =
   filter (\<lambda>t. t \<noteq> a) (mention_names dir ids)"
  by (induction ids) (auto simp: mention_names_def List.map_filter_simps split: option.splits)

section \<open>The claims\<close>

subsection \<open>Event kinds without a branch\<close>

text \<open>
  Claim C1. For every kind among error, heartbeat and ready, emitting the kind with a
  payload should call \<^verbatim>\<open>on_error\<close>, \<^verbatim>\<open>on_heartbeat\<close> or \<^verbatim>\<open>on_ready\<close> on every running plugin in
  registration order. \<^verbatim>\<open>emit_events\<close> has no branch for these names: on a manager with two
  running plugins each of the three calls returns without an exception and without a single
  handler call, although \<^verbatim>\<open>WechatyPlugin\<close> declares the three handlers as listeners of these
  events and the eight other kinds are dispatched.
\<close>

theorem error_heartbeat_ready_not_dispatched:
  "running_plugins sample_manager = [ding\<lparr>options_name := Some ''DingDongPlugin''\<rparr>, daily] \<and>
   emit_events sample_manager ''error'' [PyObject 0] [] = ([], None) \<and>
   emit_events sample_manager ''heartbeat'' [PyObject 0] [] = ([], None) \<and>
   emit_events sample_manager ''ready'' [PyObject 0] [] = ([], None)"
  by (simp add: emit_events_def running_plugins_def sample_manager_eq)

subsection \<open>The message contract\<close>

text \<open>
  For claim C2 as stated: a message event with no argument raises \<^verbatim>\<open>WechatyPluginError\<close>,
  one with a single string argument fails in \<^verbatim>\<open>assert isinstance(message, Message)\<close> with
  \<^verbatim>\<open>AssertionError\<close>. The two errors differ. A message event with no positional argument but
  a \<^verbatim>\<open>msg\<close> keyword passes the guard and fails at \<^verbatim>\<open>args[0]\<close> with \<^verbatim>\<open>IndexError\<close>.
\<close>

theorem message_type_error_counterexample:
  "emit_events sample_manager ''message'' [] [] = ([], Some WechatyPluginError) \<and>
   emit_events sample_manager ''message'' [PyStr ''hello''] [] = ([], Some AssertionError) \<and>
   snd (emit_events sample_manager ''message'' [PyStr ''hello''] []) \<noteq>
   snd (emit_events sample_manager ''message'' [] []) \<and>
   emit_events sample_manager ''message'' [] [(''msg'', Message 7)] = ([], Some IndexError)"
  by (simp add: emit_events_def run_branch_def message_args_def od_contains_def)

text \<open>
  Claim C2, amended. A message event with no positional argument and no \<^verbatim>\<open>msg\<close> keyword raises
  \<^verbatim>\<open>WechatyPluginError\<close>; a message event with one argument that is not a \<^verbatim>\<open>Message\<close> raises
  \<^verbatim>\<open>AssertionError\<close>. In both cases no plugin handler is called.
\<close>

theorem message_contract:
  "(\<not> od_contains kwargs ''msg'' \<longrightarrow>
      emit_events self ''message'' [] kwargs = ([], Some WechatyPluginError)) \<and>
   (\<not> isinstance_Message x \<longrightarrow>
      emit_events self ''message'' [x] kwargs = ([], Some AssertionError))"
  by (simp add: emit_events_def run_branch_def message_args_def)

theorem message_contract_witness:
  "\<not> od_contains [] ''msg'' \<and>
   emit_events sample_manager ''message'' [] [] = ([], Some WechatyPluginError) \<and>
   \<not> isinstance_Message (Contact 3) \<and>
   emit_events sample_manager ''message'' [Contact 3] [] = ([], Some AssertionError)"
  using message_contract [of "[]" sample_manager "Contact 3"]
  by (simp add: od_contains_def)

subsection \<open>The scan contract\<close>

text \<open>
  For claim C3 as stated: on a manager with running plugins a scan event with no argument
  raises \<^verbatim>\<open>WechatyPluginError\<close> (the guard starts with \<^verbatim>\<open>not args\<close>), and a scan event with the
  qr string and the status string only ends in \<^verbatim>\<open>IndexError\<close> at \<^verbatim>\<open>data = args[2]\<close>, with no
  handler called.
\<close>

theorem scan_arity_counterexample:
  "running_plugins sample_manager \<noteq> [] \<and>
   emit_events sample_manager ''scan'' [] [] = ([], Some WechatyPluginError) \<and>
   emit_events sample_manager ''scan'' [PyStr ''qr'', PyStr ''2''] [] = ([], Some IndexError)"
  by (simp add: emit_events_def run_branch_def scan_args_def running_plugins_def sample_manager_eq)

text \<open>
  Claim C3, amended. A scan event raises the arity error \<^verbatim>\<open>WechatyPluginError\<close> exactly when
  it has no positional argument or more than three. A scan event with three arguments, the
  qr string, the status string and the data (which may be \<^verbatim>\<open>None\<close>), is accepted: \<^verbatim>\<open>on_scan\<close> is
  called with them on every running plugin, in registration order, and no exception is
  raised.
\<close>

theorem scan_contract:
  "(snd (emit_events self ''scan'' args kwargs) = Some WechatyPluginError
      \<longleftrightarrow> length args = 0 \<or> 3 < length args) \<and>
   (lockstep self \<longrightarrow>
      emit_events self ''scan'' [PyStr qr_code, PyStr scan_status, data] kwargs =
        (map (\<lambda>p. (p, on_scan (PyStr qr_code) (PyStr scan_status) data)) (running_plugins self),
         None))"
proof -
  have "snd (run_branch self (scan_args args)) = Some WechatyPluginError
      \<longleftrightarrow> scan_args args = Inl WechatyPluginError"
    using run_branch_not_plugin_error [of self]
    by (cases "scan_args args") (auto simp: run_branch_def)
  then have a: "snd (emit_events self ''scan'' args kwargs) = Some WechatyPluginError
      \<longleftrightarrow> length args = 0 \<or> 3 < length args"
    by (simp add: emit_events_def scan_args_plugin_error)
  have "scan_args [PyStr qr_code, PyStr scan_status, data]
      = Inr (on_scan (PyStr qr_code) (PyStr scan_status) data)"
    by (simp add: scan_args_def)
  then have b: "lockstep self \<longrightarrow>
      emit_events self ''scan'' [PyStr qr_code, PyStr scan_status, data] kwargs =
        (map (\<lambda>p. (p, on_scan (PyStr qr_code) (PyStr scan_status) data)) (running_plugins self),
         None)"
    by (simp add: emit_events_def run_branch_lockstep)
  from a b show ?thesis by simp
qed

theorem scan_contract_witness:
  "lockstep sample_manager \<and>
   snd (emit_events sample_manager ''scan'' [] []) = Some WechatyPluginError \<and>
   snd (emit_events sample_manager ''scan''
     [PyStr ''qr'', PyStr ''2'', PyNone, PyNone] []) = Some WechatyPluginError \<and>
   emit_events sample_manager ''scan'' [PyStr ''qr'', PyStr ''2'', PyNone] [] =
     ([(ding\<lparr>options_name := Some ''DingDongPlugin''\<rparr>, on_scan (PyStr ''qr'') (PyStr ''2'') PyNone),
       (daily, on_scan (PyStr ''qr'') (PyStr ''2'') PyNone)], None)"
proof -
  have rp: "running_plugins sample_manager = [ding\<lparr>options_name := Some ''DingDongPlugin''\<rparr>, daily]"
    by (simp add: running_plugins_def sample_manager_eq)
  show ?thesis
    using scan_contract [of sample_manager "[]" "[]" "''qr''" "''2''" PyNone]
      scan_contract [of sample_manager "[PyStr ''qr'', PyStr ''2'', PyNone, PyNone]" "[]" "''qr''" "''2''" PyNone]
      lockstep_sample
    by (simp add: rp)
qed

subsection \<open>Dispatch order\<close>

text \<open>
  Claim C4. For an event that \<^verbatim>\<open>emit_events\<close> handles and that returns, the plugins called are
  the registered plugins in registration order restricted to those whose status is
  \<^verbatim>\<open>Running\<close>. After a registered plugin is stopped the same event reaches the others only,
  in the same order; after it is started again the event reaches it at its original
  position.
\<close>

theorem dispatch_in_registration_order:
  assumes "lockstep self" and "event_name \<in> set handled_events"
    and "emit_events self event_name args kwargs = (calls, None)"
    and "n \<in> plugin_keys self"
  shows "map fst calls = running_plugins self \<and>
    map fst (fst (emit_events (snd (stop_plugin self n)) event_name args kwargs)) =
      map snd (filter (\<lambda>(k, p). k \<noteq> n \<and> plugin_statuses self k = Some Running) (plugins self)) \<and>
    map fst (fst (emit_events (snd (start_plugin (snd (stop_plugin self n)) n)) event_name args kwargs)) =
      map snd (filter (\<lambda>(k, p). k = n \<or> plugin_statuses self k = Some Running) (plugins self))"
proof -
  let ?stopped = "snd (stop_plugin self n)"
  let ?restarted = "snd (start_plugin ?stopped n)"
  have l1: "lockstep ?stopped" by (rule lockstep_stop [OF assms(1)])
  have l2: "lockstep ?restarted" by (rule lockstep_start [OF l1])
  have a: "map fst calls = running_plugins self"
    using emit_returns [OF assms(1) assms(1) assms(2) assms(3)] by (auto simp: comp_def)
  have b: "map fst (fst (emit_events ?stopped event_name args kwargs)) = running_plugins ?stopped"
    using emit_returns [OF assms(1) l1 assms(2) assms(3)] by (auto simp: comp_def)
  have c: "map fst (fst (emit_events ?restarted event_name args kwargs)) = running_plugins ?restarted"
    using emit_returns [OF assms(1) l2 assms(2) assms(3)] by (auto simp: comp_def)
  show ?thesis
    using a b c running_after_stop [OF assms(1) assms(4)]
      running_after_restart [OF assms(1) assms(4)] by simp
qed

theorem dispatch_in_registration_order_witness:
  "lockstep sample_manager \<and> ''message'' \<in> set handled_events \<and>
   emit_events sample_manager ''message'' [Message 7] [] =
     ([(ding\<lparr>options_name := Some ''DingDongPlugin''\<rparr>, on_message (Message 7)),
       (daily, on_message (Message 7))], None) \<and>
   ''DingDongPlugin'' \<in> plugin_keys sample_manager \<and>
   running_plugins sample_manager = [ding\<lparr>options_name := Some ''DingDongPlugin''\<rparr>, daily] \<and>
   map fst (fst (emit_events (snd (stop_plugin sample_manager ''DingDongPlugin''))
      ''message'' [Message 7] [])) = [daily] \<and>
   map fst (fst (emit_events
      (snd (start_plugin (snd (stop_plugin sample_manager ''DingDongPlugin'')) ''DingDongPlugin''))
      ''message'' [Message 7] [])) = [ding\<lparr>options_name := Some ''DingDongPlugin''\<rparr>, daily]"
proof -
  have h2: "''message'' \<in> set handled_events" by (simp add: handled_events_def)
  have h4: "''DingDongPlugin'' \<in> plugin_keys sample_manager" by (simp add: plugin_keys_sample)
  note main = dispatch_in_registration_order [OF lockstep_sample h2 emit_message_sample h4]
  have st: "plugin_statuses sample_manager = [''DingDongPlugin'' \<mapsto> Running, ''daily'' \<mapsto> Running]"
    and pl: "plugins sample_manager =
      [(''DingDongPlugin'', ding\<lparr>options_name := Some ''DingDongPlugin''\<rparr>), (''daily'', daily)]"
    by (simp_all add: sample_manager_eq)
  show ?thesis
    using main lockstep_sample h2 h4 emit_message_sample by (simp add: st pl)
qed

subsection \<open>Registration\<close>

text \<open>
  Claim C5. Adding a plugin instance whose name is already registered returns without an
  exception and leaves the manager as it was: the same instances under the same names in the
  same order, with the same statuses. Adding an instance under a new name puts it at the end
  of the order with status \<^verbatim>\<open>Running\<close>.
\<close>

theorem duplicate_registration_is_noop:
  "(fst (name p) \<in> plugin_keys self \<longrightarrow> add_plugin rm self (Inr p) = (Inr (), self)) \<and>
   (fst (name p) \<notin> plugin_keys self \<longrightarrow>
      fst (add_plugin rm self (Inr p)) = Inr () \<and>
      plugins (snd (add_plugin rm self (Inr p))) = plugins self @ [(fst (name p), snd (name p))] \<and>
      plugin_statuses (snd (add_plugin rm self (Inr p))) =
        (plugin_statuses self)(fst (name p) \<mapsto> Running))"
  by (simp add: add_plugin_instance_eq)

theorem duplicate_registration_is_noop_witness:
  "fst (name ding_again) \<in> plugin_keys sample_manager \<and>
   add_plugin (\<lambda>s. False) sample_manager (Inr ding_again) = (Inr (), sample_manager) \<and>
   fst (name daily) \<notin> plugin_keys init \<and>
   fst (add_plugin (\<lambda>s. False) init (Inr daily)) = Inr () \<and>
   plugins (snd (add_plugin (\<lambda>s. False) init (Inr daily))) = [(''daily'', daily)] \<and>
   plugin_statuses (snd (add_plugin (\<lambda>s. False) init (Inr daily))) = [''daily'' \<mapsto> Running]"
proof -
  have dup: "fst (name ding_again) \<in> plugin_keys sample_manager"
    by (simp add: name_def ding_again_def plugin_keys_sample)
  have new: "fst (name daily) \<notin> plugin_keys init"
    by (simp add: plugin_keys_def init_def)
  have nd: "name daily = (''daily'', daily)"
    by (simp add: name_def daily_def)
  show ?thesis
    using duplicate_registration_is_noop [of ding_again sample_manager "\<lambda>s. False"]
      duplicate_registration_is_noop [of daily init "\<lambda>s. False"] dup new
    by (simp add: nd init_def)
qed

text \<open>
  Claim C6. On a manager whose dictionaries are in lockstep, \<^verbatim>\<open>remove_plugin\<close>, \<^verbatim>\<open>start_plugin\<close>,
  \<^verbatim>\<open>stop_plugin\<close> and \<^verbatim>\<open>plugin_status\<close> with a name that is not registered each raise
  \<^verbatim>\<open>WechatyPluginError\<close> and leave both dictionaries as they were.
\<close>

theorem unregistered_name_fails:
  assumes "lockstep self" and "n \<notin> plugin_keys self"
  shows "remove_plugin self n = (Inl WechatyPluginError, self) \<and>
         start_plugin self n = (Inl WechatyPluginError, self) \<and>
         stop_plugin self n = (Inl WechatyPluginError, self) \<and>
         plugin_status self n = (Inl WechatyPluginError, self)"
  using assms
  by (simp add: remove_plugin_def start_plugin_def stop_plugin_def plugin_status_def
      check_plugins_unregistered od_contains_iff plugin_keys_def [symmetric])

theorem unregistered_name_fails_witness:
  "lockstep sample_manager \<and> ''ghost'' \<notin> plugin_keys sample_manager \<and>
   remove_plugin sample_manager ''ghost'' = (Inl WechatyPluginError, sample_manager) \<and>
   start_plugin sample_manager ''ghost'' = (Inl WechatyPluginError, sample_manager) \<and>
   stop_plugin sample_manager ''ghost'' = (Inl WechatyPluginError, sample_manager) \<and>
   plugin_status sample_manager ''ghost'' = (Inl WechatyPluginError, sample_manager)"
proof -
  have k: "''ghost'' \<notin> plugin_keys sample_manager"
    by (simp add: plugin_keys_sample)
  show ?thesis
    using unregistered_name_fails [OF lockstep_sample k] lockstep_sample k by simp
qed

subsection \<open>Mention extraction\<close>

text \<open>
  Claim C7. A mentioned member with a room alias is matched by the alias token only: when
  \<open>@\<close> followed by the alias does not occur in the text, the matching pass gives the same
  result with and without that member's id, whether or not \<open>@\<close> followed by the display name
  occurs, and so does the whole extraction as long as another id is mentioned; the other
  members' tokens are removed as before. On the text of
  \<^verbatim>\<open>test_mention_text_with_mentions_and_mismatched_alias\<close> the result is
  \<^verbatim>\<open>123123@Fake User beep\<close>.
\<close>

theorem aliased_member_matched_by_alias_only:
  "(dir i = Some m \<and> room_alias m = Some a \<and> \<not> sublist (CHR ''@'' # a) text \<longrightarrow>
      remove_mentions (mention_names dir ids) text =
        remove_mentions (mention_names dir (removeAll i ids)) text \<and>
      (removeAll i ids \<noteq> [] \<longrightarrow>
         mention_text text dir ids = mention_text text dir (removeAll i ids))) \<and>
   mention_text ''123123@Wechaty User @Test User @Fake User beep'' test_directory
     [''wechaty_user'', ''test_user'', ''fake_user''] = ''123123@Fake User beep''"
proof -
  have pass: "remove_mentions (mention_names dir ids) text =
      remove_mentions (mention_names dir (removeAll i ids)) text"
    if "dir i = Some m" and "room_alias m = Some a" and absent: "\<not> sublist (CHR ''@'' # a) text"
  proof -
    from that have "mention_name dir i = Some a" by (simp add: mention_name_def)
    from mention_names_without [OF this, of ids]
    show ?thesis
      using remove_mentions_without [OF absent, of "mention_names dir ids"]
        remove_mentions_without [OF absent, of "mention_names dir (removeAll i ids)"]
      by simp
  qed
  have whole: "mention_text text dir ids = mention_text text dir (removeAll i ids)"
    if "dir i = Some m" and "room_alias m = Some a" and "\<not> sublist (CHR ''@'' # a) text"
      and "removeAll i ids \<noteq> []"
  proof -
    from that(4) have "ids \<noteq> []" by auto
    with that(4) pass [OF that(1-3)] show ?thesis by (simp add: mention_text_def)
  qed
  have "mention_text ''123123@Wechaty User @Test User @Fake User beep'' test_directory
     [''wechaty_user'', ''test_user'', ''fake_user''] = ''123123@Fake User beep''"
    by code_simp
  with pass whole show ?thesis by blast
qed

theorem aliased_member_matched_by_alias_only_witness:
  "test_directory ''fake_user'' = Some \<lparr>display_name = ''Fake User'', room_alias = Some ''Fake Alias''\<rparr> \<and>
   \<not> sublist ''@Fake Alias'' ''123123@Wechaty User @Test User @Fake User beep'' \<and>
   sublist ''@Fake User'' ''123123@Wechaty User @Test User @Fake User beep'' \<and>
   remove_mentions (mention_names test_directory [''wechaty_user'', ''test_user'', ''fake_user''])
     ''123123@Wechaty User @Test User @Fake User beep'' =
   remove_mentions (mention_names test_directory [''wechaty_user'', ''test_user''])
     ''123123@Wechaty User @Test User @Fake User beep'' \<and>
   mention_text ''123123@Wechaty User @Test User @Fake User beep'' test_directory
     [''wechaty_user'', ''test_user'', ''fake_user''] =
   mention_text ''123123@Wechaty User @Test User @Fake User beep'' test_directory
     [''wechaty_user'', ''test_user'']"
proof -
  have h1: "test_directory ''fake_user'' =
      Some \<lparr>display_name = ''Fake User'', room_alias = Some ''Fake Alias''\<rparr>"
    by (simp add: test_directory_def)
  have h3: "\<not> sublist ''@Fake Alias'' ''123123@Wechaty User @Test User @Fake User beep''"
    by code_simp
  have h4: "sublist ''@Fake User'' ''123123@Wechaty User @Test User @Fake User beep''"
    by code_simp
  show ?thesis
    using aliased_member_matched_by_alias_only
      [of test_directory "''fake_user''"
        "\<lparr>display_name = ''Fake User'', room_alias = Some ''Fake Alias''\<rparr>" "''Fake Alias''"
        "''123123@Wechaty User @Test User @Fake User beep''"
        "[''wechaty_user'', ''test_user'', ''fake_user'']"] h1 h3 h4
    by simp
qed

text \<open>
  Claim C8. With an empty list of mentioned ids the text is returned unchanged, whatever the
  text and the member directory are.
\<close>

theorem no_mentioned_ids_text_unchanged: "mention_text text dir [] = text"
  by (simp add: mention_text_def)

subsection \<open>The registry invariant\<close>

text \<open>
  Claim C9. After every sequence of \<^verbatim>\<open>add_plugin\<close>, \<^verbatim>\<open>remove_plugin\<close>, \<^verbatim>\<open>start_plugin\<close>,
  \<^verbatim>\<open>stop_plugin\<close> and \<^verbatim>\<open>plugin_status\<close> calls on a new manager, whether they raise or not, the
  keys of \<^verbatim>\<open>_plugins\<close> are the keys of \<^verbatim>\<open>_plugin_status\<close>.
\<close>

theorem registry_maps_in_lockstep:
  "plugin_keys (run_ops rm init ops) = status_keys (run_ops rm init ops)"
  using lockstep_run_ops [OF lockstep_init, of rm ops] by (simp add: lockstep_def)

subsection \<open>Default names\<close>

text \<open>
  Claim C10. Two distinct instances of one class, neither with a configured name, both get
  the class name. Once the first was added, adding the second returns without an exception
  and changes nothing: the second instance is not in the registry (if it was not before) and
  no event reaches it.
\<close>

theorem same_class_default_name:
  assumes "class_name p1 = class_name p2"
    and "options_name p1 = None \<or> options_name p1 = Some []"
    and "options_name p2 = None \<or> options_name p2 = Some []"
    and "ident p1 \<noteq> ident p2"
    and "ident p2 \<notin> ident ` snd ` set (plugins self)"
  shows "fst (name p1) = class_name p1 \<and> fst (name p2) = class_name p1 \<and>
    add_plugin rm (snd (add_plugin rm self (Inr p1))) (Inr p2) =
      (Inr (), snd (add_plugin rm self (Inr p1))) \<and>
    ident p2 \<notin> ident ` snd ` set (plugins (snd (add_plugin rm self (Inr p1)))) \<and>
    ident p2 \<notin> ident ` fst ` set (fst (emit_events (snd (add_plugin rm self (Inr p1)))
       event_name args kwargs))"
proof -
  let ?self1 = "snd (add_plugin rm self (Inr p1))"
  have n1: "fst (name p1) = class_name p1" and n2: "fst (name p2) = class_name p1"
    using assms(1-3) by (auto simp: name_def)
  have reg: "fst (name p2) \<in> plugin_keys ?self1"
    by (simp add: add_plugin_instance_eq n1 n2 plugin_keys_def)
  have noop: "add_plugin rm ?self1 (Inr p2) = (Inr (), ?self1)"
    using reg by (simp add: add_plugin_instance_eq [of rm ?self1 p2])
  have absent: "ident p2 \<notin> ident ` snd ` set (plugins ?self1)"
    using assms(4,5) by (auto simp: add_plugin_instance_eq ident_name)
  have "ident p2 \<notin> ident ` fst ` set (fst (emit_events ?self1 event_name args kwargs))"
  proof
    assume "ident p2 \<in> ident ` fst ` set (fst (emit_events ?self1 event_name args kwargs))"
    then obtain q c where "(q, c) \<in> set (fst (emit_events ?self1 event_name args kwargs))"
      and "ident q = ident p2" by force
    with emit_calls_registered [of q c ?self1] absent show False
      by (metis imageI)
  qed
  with n1 n2 noop absent show ?thesis by simp
qed

theorem same_class_default_name_witness:
  "class_name ding = class_name ding_again \<and> options_name ding = None \<and>
   options_name ding_again = None \<and> ident ding \<noteq> ident ding_again \<and>
   ident ding_again \<notin> ident ` snd ` set (plugins init) \<and>
   fst (name ding) = ''DingDongPlugin'' \<and> fst (name ding_again) = ''DingDongPlugin'' \<and>
   add_plugin (\<lambda>s. False) (snd (add_plugin (\<lambda>s. False) init (Inr ding))) (Inr ding_again) =
     (Inr (), snd (add_plugin (\<lambda>s. False) init (Inr ding))) \<and>
   ident ding_again \<notin> ident ` snd ` set (plugins (snd (add_plugin (\<lambda>s. False) init (Inr ding)))) \<and>
   ident ding_again \<notin> ident ` fst ` set (fst (emit_events
      (snd (add_plugin (\<lambda>s. False) init (Inr ding))) ''message'' [Message 7] []))"
proof -
  have h1: "class_name ding = class_name ding_again" by (simp add: ding_def ding_again_def)
  have h2: "options_name ding = None \<or> options_name ding = Some []" by (simp add: ding_def)
  have h3: "options_name ding_again = None \<or> options_name ding_again = Some []"
    by (simp add: ding_again_def)
  have o: "options_name ding = None" "options_name ding_again = None"
    by (simp_all add: ding_def ding_again_def)
  have h4: "ident ding \<noteq> ident ding_again" by (simp add: ding_def ding_again_def)
  have h5: "ident ding_again \<notin> ident ` snd ` set (plugins init)" by (simp add: init_def)
  have cn: "class_name ding = ''DingDongPlugin''" by (simp add: ding_def)
  show ?thesis
    using same_class_default_name [OF h1 h2 h3 h4 h5, of "\<lambda>s. False" "''message''" "[Message 7]" "[]"]
      h1 o h4 h5 by (simp add: cn)
qed

end
